theory Spec2Isabelle
  imports Main "HOL-Library.Word"
begin

unbundle bit_operations_syntax

section \<open>The xpersist region of Sheriff (src/include/xpersist.h)\<close>

text \<open>
  The class template \<^verbatim>\<open>xpersist<Type, NElts>\<close> keeps a region of memory mapped twice
  (a private working copy and a shared persistent copy) and reconciles the two page by page.

  Machine types. The source fixes a 32-bit target: it assumes
  \<^verbatim>\<open>sizeof(unsigned long) == 2 * sizeof(unsigned short)\<close> (line 645), packs a word
  change record into 16 + 16 bits (lines 851-852) and casts pointers to \<^verbatim>\<open>int\<close> (line 320).
  So \<^verbatim>\<open>int\<close>, \<^verbatim>\<open>unsigned int\<close>, \<^verbatim>\<open>unsigned long\<close>, \<^verbatim>\<open>size_t\<close> and pointers are
  32-bit words whose arithmetic wraps, \<^verbatim>\<open>unsigned short\<close> is a 16-bit word, and a buffer
  is a list of bytes. Signed comparisons of the source are written with the signed order
  of words, unsigned ones with the unsigned order.
\<close>

type_synonym byte = "8 word"
type_synonym ushort = "16 word"
type_synonym ulong = "32 word"
type_synonym buffer = "byte list"

text \<open>
  The constants of \<^verbatim>\<open>xdefines.h\<close> are not part of the sources at hand; every function
  that uses one takes them as a parameter.
\<close>

record xdefines =
  PageSize :: ulong
  PAGE_SIZE_MASK :: ulong
  CACHE_LINE_SIZE :: ulong
  CACHES_PER_PAGE :: ulong

text \<open>\<^verbatim>\<open>sizeof(unsigned long)\<close> and \<^verbatim>\<open>sizeof(__m128i)\<close>, in bytes.\<close>

definition sizeof_ulong :: nat where
  "sizeof_ulong = 4"

definition sizeof_m128i :: nat where
  "sizeof_m128i = 16"

subsection \<open>Word change records\<close>

text \<open>
  \<^verbatim>\<open>wordchangeinfo.h\<close> is not part of the sources at hand. The record is taken from the
  comment of lines 851-852 ("the higher 16 bit to store the thread id and ... the lower 16
  bit to store versions") and from \<^verbatim>\<open>recordWordChanges\<close>, which reads the field
  \<^verbatim>\<open>tid\<close> into an \<^verbatim>\<open>unsigned short\<close>.
\<close>

record wordchangeinfo =
  tid :: ushort
  version :: ushort

text \<open>
  \<^verbatim>\<open>recordWordChanges\<close> (lines 618-634). \<^verbatim>\<open>mine\<close> is the result of \<^verbatim>\<open>getpid()\<close>.
  The comparison \<^verbatim>\<open>tid != mine\<close> is one of \<^verbatim>\<open>int\<close>s (the short is zero-extended), the
  assignment \<^verbatim>\<open>word->tid = mine\<close> truncates to 16 bits, and so does the addition to
  \<^verbatim>\<open>version\<close>.
\<close>

definition recordWordChanges :: "ulong \<Rightarrow> wordchangeinfo \<Rightarrow> ulong \<Rightarrow> wordchangeinfo" where
  "recordWordChanges mine word changes =
     (let t = tid word;
          word1 = (if t = 0 then word\<lparr>tid := ucast mine\<rparr>
                   else if t \<noteq> 0 \<and> (ucast t :: ulong) \<noteq> mine \<and> t \<noteq> 0xFFFF
                        then word\<lparr>tid := 0xFFFF\<rparr>
                        else word)
      in word1\<lparr>version := version word1 + ucast changes\<rparr>)"

text \<open>A sequence of calls on one record, each with the caller's pid and its count.\<close>

definition recordWordChanges_calls :: "(ulong \<times> ulong) list \<Rightarrow> wordchangeinfo \<Rightarrow> wordchangeinfo" where
  "recordWordChanges_calls calls word = fold (\<lambda>(mine, changes) w. recordWordChanges mine w changes) calls word"

subsection \<open>Region geometry: constructor, base and size\<close>

datatype error = Abort

text \<open>The fields the constructor assigns.\<close>

record region =
  m_startaddr :: ulong
  m_startsize :: ulong
  m_isHeap :: bool
  m_backingFd :: ulong
  m_persistentMemory :: ulong
  m_transientMemory :: ulong
  m_isProtected :: bool

text \<open>
  What the operating system answers to the constructor: the descriptor of \<^verbatim>\<open>mkstemp\<close>,
  the result of \<^verbatim>\<open>ftruncate\<close> and the addresses of the two mappings.
\<close>

record os_answers =
  mkstemp_fd :: ulong
  ftruncate_rc :: ulong
  persistent_map :: ulong
  transient_map :: ulong

definition MAP_FAILED :: ulong where
  "MAP_FAILED = - 1"

text \<open>
  The constructor (lines 67-166), with every \<^verbatim>\<open>abort()\<close> as the error value. The
  template parameters are \<^verbatim>\<open>NElts\<close> and \<^verbatim>\<open>sizeofType\<close> (the value of
  \<^verbatim>\<open>sizeof(Type)\<close>). The bytes that \<^verbatim>\<open>memcpy\<close> moves into the persistent mapping and
  the zero-filled shared arrays belong to the memory of the engine state below.
\<close>

definition xpersist_ctor ::
  "xdefines \<Rightarrow> ulong \<Rightarrow> ulong \<Rightarrow> os_answers \<Rightarrow> ulong \<Rightarrow> ulong \<Rightarrow> error + region" where
  "xpersist_ctor xd NElts sizeofType os startaddr startsize =
     (if 0 < startsize \<and> NElts * sizeofType < startsize then Inl Abort
      else if mkstemp_fd os = - 1 then Inl Abort
      else if ftruncate_rc os \<noteq> 0 then Inl Abort
      else if persistent_map os = MAP_FAILED then Inl Abort
      else
        let startsize1 = (if startaddr \<noteq> 0
                          then (startsize div PageSize xd + 1) * PageSize xd
                          else startsize);
            isHeap = (if startaddr \<noteq> 0 then False else True)
        in if transient_map os = MAP_FAILED \<or> persistent_map os = MAP_FAILED then Inl Abort
           else Inr \<lparr> m_startaddr = startaddr, m_startsize = startsize1, m_isHeap = isHeap,
                      m_backingFd = mkstemp_fd os,
                      m_persistentMemory = persistent_map os,
                      m_transientMemory = transient_map os,
                      m_isProtected = False \<rparr>)"

text \<open>\<^verbatim>\<open>base()\<close> (lines 356-358) and \<^verbatim>\<open>size()\<close> (lines 361-366).\<close>

definition base :: "'a region_scheme \<Rightarrow> ulong" where
  "base r = m_transientMemory r"

definition region_size :: "ulong \<Rightarrow> ulong \<Rightarrow> 'a region_scheme \<Rightarrow> ulong" where
  "region_size NElts sizeofType r = (if m_isHeap r then NElts * sizeofType else m_startsize r)"

definition inRange :: "ulong \<Rightarrow> ulong \<Rightarrow> 'a region_scheme \<Rightarrow> ulong \<Rightarrow> bool" where
  "inRange NElts sizeofType r addr =
     (if base r \<le> addr \<and> addr < base r + region_size NElts sizeofType r then True else False)"

text \<open>\<^verbatim>\<open>computePage\<close> (lines 792-794): the index is multiplied by \<^verbatim>\<open>sizeof(Type)\<close>.\<close>

definition computePage :: "xdefines \<Rightarrow> ulong \<Rightarrow> ulong \<Rightarrow> ulong" where
  "computePage xd sizeofType index = (index * sizeofType) div PageSize xd"

subsection \<open>Page metadata and the state of the engine\<close>

text \<open>
  \<^verbatim>\<open>struct pageinfo\<close> (\<^verbatim>\<open>xpageentry.h\<close>, not part of the sources at hand) with the
  fields the code reads and writes. The three buffers are held by their contents; they are
  pairwise distinct blocks handed out by the pools, and distinct from the region's mappings.
\<close>

record pageinfo =
  pageNo :: ulong
  pageStart :: ulong
  origTwinPage :: buffer
  tempTwinPage :: buffer
  wordChanges :: "ulong list"
  shared :: bool
  alloced :: bool

text \<open>The system calls the engine issues on its working mapping, in order.\<close>

datatype prot = PROT_READ | PROT_READ_WRITE

datatype syscall =
    Mprotect ulong ulong prot
  | Madvise_DONTNEED ulong ulong

text \<open>
  The state of one process's engine. \<^verbatim>\<open>transient\<close> gives the bytes of the working page
  that starts at an address, \<^verbatim>\<open>persistent\<close> the bytes of the persistent page with a page
  number (the page at \<^verbatim>\<open>_persistentMemory + PageSize * pageNo\<close>). The shared arrays are
  indexed as the code indexes them; \<^verbatim>\<open>m_wordChanges\<close> is indexed by the byte offset from
  \<^verbatim>\<open>_wordChanges\<close>, since \<^verbatim>\<open>checkcommitpage\<close> computes addresses in it by hand.
  \<^verbatim>\<open>m_privatePagesList\<close> is the \<^verbatim>\<open>std::map<int, void *>\<close> in iteration order, each key
  with the record its pointer leads to. \<^verbatim>\<open>getpid\<close> is the pid of the process. The
  last four fields are the two pools, \<^verbatim>\<open>xpageentry\<close> and \<^verbatim>\<open>xpagestore\<close>: the blocks
  they hold, with their contents, and how many each has handed out.
\<close>

record xpersist = region +
  getpid :: ulong
  transient :: "ulong \<Rightarrow> buffer"
  persistent :: "ulong \<Rightarrow> buffer"
  m_privatePagesList :: "(ulong \<times> pageinfo) list"
  m_cacheLastthread :: "ulong \<Rightarrow> ulong"
  m_cacheInvalidates :: "ulong \<Rightarrow> ulong"
  m_pageUsers :: "ulong \<Rightarrow> ulong"
  m_wordChanges :: "ulong \<Rightarrow> wordchangeinfo"
  syscalls :: "syscall list"
  xpageentry_blocks :: "nat \<Rightarrow> pageinfo"
  xpageentry_used :: nat
  xpagestore_blocks :: "nat \<Rightarrow> buffer"
  xpagestore_used :: nat

text \<open>
  Modelled from the spec: the pools \<^verbatim>\<open>xpageentry\<close> and \<^verbatim>\<open>xpagestore\<close> (their headers
  are not part of the sources at hand) hand out the next block on \<^verbatim>\<open>alloc()\<close>, with
  whatever contents the block has, and recycle every block on \<^verbatim>\<open>cleanup()\<close>.
\<close>

definition xpageentry_alloc :: "xpersist \<Rightarrow> pageinfo \<times> xpersist" where
  "xpageentry_alloc st =
     (xpageentry_blocks st (xpageentry_used st), st\<lparr>xpageentry_used := xpageentry_used st + 1\<rparr>)"

definition xpagestore_alloc :: "xpersist \<Rightarrow> buffer \<times> xpersist" where
  "xpagestore_alloc st =
     (xpagestore_blocks st (xpagestore_used st), st\<lparr>xpagestore_used := xpagestore_used st + 1\<rparr>)"

definition xpageentry_cleanup :: "xpersist \<Rightarrow> xpersist" where
  "xpageentry_cleanup st = st\<lparr>xpageentry_used := 0\<rparr>"

definition xpagestore_cleanup :: "xpersist \<Rightarrow> xpersist" where
  "xpagestore_cleanup st = st\<lparr>xpagestore_used := 0\<rparr>"

text \<open>
  Modelled from the spec: the primitives of \<^verbatim>\<open>atomic.h\<close> (not part of the sources at
  hand). \<^verbatim>\<open>increment_and_return\<close> adds one and returns the previous value ("if the
  previous value was nonzero"), \<^verbatim>\<open>exchange\<close> stores a value and returns the previous
  holder, \<^verbatim>\<open>increment\<close> adds one, \<^verbatim>\<open>atomic_read\<close> reads. Each is one step of this
  process.
\<close>

definition atomic_increment_and_return :: "(ulong \<Rightarrow> ulong) \<Rightarrow> ulong \<Rightarrow> ulong \<times> (ulong \<Rightarrow> ulong)" where
  "atomic_increment_and_return arr i = (arr i, arr(i := arr i + 1))"

definition atomic_exchange :: "(ulong \<Rightarrow> ulong) \<Rightarrow> ulong \<Rightarrow> ulong \<Rightarrow> ulong \<times> (ulong \<Rightarrow> ulong)" where
  "atomic_exchange arr i v = (arr i, arr(i := v))"

definition atomic_increment :: "(ulong \<Rightarrow> ulong) \<Rightarrow> ulong \<Rightarrow> (ulong \<Rightarrow> ulong)" where
  "atomic_increment arr i = arr(i := arr i + 1)"

definition atomic_read :: "(ulong \<Rightarrow> ulong) \<Rightarrow> ulong \<Rightarrow> ulong" where
  "atomic_read arr i = arr i"

text \<open>\<^verbatim>\<open>memcpy (dst, src, n)\<close>: byte \<open>j\<close> of the source goes to byte \<open>j\<close> of the destination.\<close>

definition memcpy :: "buffer \<Rightarrow> buffer \<Rightarrow> nat \<Rightarrow> buffer" where
  "memcpy dst src n = map (\<lambda>j. src ! j) [0..<n] @ drop n dst"

text \<open>Word \<open>i\<close> of a buffer read through an \<^verbatim>\<open>unsigned long *\<close>, as its bytes.\<close>

definition word_at :: "buffer \<Rightarrow> nat \<Rightarrow> byte list" where
  "word_at buf i = map (\<lambda>k. buf ! (i * sizeof_ulong + k)) [0..<sizeof_ulong]"

text \<open>The assignment \<^verbatim>\<open>dst[i] = src[i]\<close> through \<^verbatim>\<open>unsigned long *\<close>.\<close>

definition word_assign :: "buffer \<Rightarrow> buffer \<Rightarrow> nat \<Rightarrow> buffer" where
  "word_assign dst src i =
     fold (\<lambda>k d. d[i * sizeof_ulong + k := src ! (i * sizeof_ulong + k)]) [0..<sizeof_ulong] dst"

subsection \<open>The write interceptor\<close>

text \<open>
  \<^verbatim>\<open>addPageEntry\<close> (lines 368-377) on the ordered map: a new key is inserted at its place
  in the signed order of \<^verbatim>\<open>std::less<int>\<close>; for a key already there the record is copied
  over the one the map points to.
\<close>

fun addPageEntry :: "ulong \<Rightarrow> pageinfo \<Rightarrow> (ulong \<times> pageinfo) list \<Rightarrow> (ulong \<times> pageinfo) list" where
  "addPageEntry pn curPage [] = [(pn, curPage)]"
| "addPageEntry pn curPage ((k, p) # rest) =
     (if pn = k then (k, curPage) # rest
      else if pn <s k then (pn, curPage) # (k, p) # rest
      else (k, p) # addPageEntry pn curPage rest)"

text \<open>
  \<^verbatim>\<open>handleWrite\<close> (lines 381-431). The inline assembly rewrites the first word of the page
  with its own value, which leaves the bytes as they are.
\<close>

definition handleWrite :: "xdefines \<Rightarrow> ulong \<Rightarrow> ulong \<Rightarrow> xpersist \<Rightarrow> xpersist" where
  "handleWrite xd sizeofType addr st =
     (let pageStart1 = addr AND NOT (PAGE_SIZE_MASK xd);
          st1 = st\<lparr>syscalls := syscalls st @ [Mprotect pageStart1 (PageSize xd) PROT_READ_WRITE]\<rparr>;
          pageNo1 = computePage xd sizeofType (addr - base st1);
          (curPage, st2) = xpageentry_alloc st1;
          curPage1 = curPage\<lparr>pageNo := pageNo1, pageStart := pageStart1, alloced := False\<rparr>;
          curPage2 = curPage1\<lparr>origTwinPage :=
                       memcpy (origTwinPage curPage1) (transient st2 pageStart1) (unat (PageSize xd))\<rparr>;
          (origUsers, users) = atomic_increment_and_return (m_pageUsers st2) pageNo1;
          st3 = st2\<lparr>m_pageUsers := users\<rparr>;
          curPage3 = (if origUsers \<noteq> 0 then curPage2\<lparr>shared := True\<rparr>
                      else curPage2\<lparr>shared := False\<rparr>)
      in st3\<lparr>m_privatePagesList := addPageEntry pageNo1 curPage3 (m_privatePagesList st3)\<rparr>)"


subsection \<open>Transaction reset\<close>

text \<open>
  \<^verbatim>\<open>updatePages\<close> (lines 797-803) and \<^verbatim>\<open>updateBatchedPages\<close> (lines 691-693). The
  two system calls are recorded in order; what the kernel then does to the bytes of the
  working pages is outside the source and not part of the state.
\<close>

definition updatePages :: "ulong \<Rightarrow> ulong \<Rightarrow> xpersist \<Rightarrow> xpersist" where
  "updatePages local sz st =
     st\<lparr>syscalls := syscalls st @ [Madvise_DONTNEED local sz, Mprotect local sz PROT_READ]\<rparr>"

definition updateBatchedPages :: "xdefines \<Rightarrow> ulong \<Rightarrow> ulong \<Rightarrow> xpersist \<Rightarrow> xpersist" where
  "updateBatchedPages xd batchedPages batchedStart st =
     updatePages batchedStart (batchedPages * PageSize xd) st"

text \<open>The local variables of \<^verbatim>\<open>updateAll\<close> that live across its loop.\<close>

record updateAll_locals =
  batchedStart :: ulong
  batchedPages :: ulong
  lastpage :: ulong
  ua_st :: xpersist

text \<open>The body of the loop of lines 715-737, for one entry of the map.\<close>

definition updateAll_body :: "xdefines \<Rightarrow> ulong \<times> pageinfo \<Rightarrow> updateAll_locals \<Rightarrow> updateAll_locals" where
  "updateAll_body xd entry l =
     (let pageNo1 = fst entry; pageinfo1 = snd entry in
      if pageNo1 = lastpage l + 1 then l\<lparr>batchedPages := batchedPages l + 1\<rparr>
      else
        let l1 = (if 0 <s batchedPages l
                  then l\<lparr>ua_st := updateBatchedPages xd (batchedPages l) (batchedStart l) (ua_st l)\<rparr>
                  else l)
        in l1\<lparr>batchedPages := 1, batchedStart := pageStart pageinfo1, lastpage := pageNo1\<rparr>)"

text \<open>\<^verbatim>\<open>updateAll\<close> (lines 699-752); \<^verbatim>\<open>begin\<close> (lines 564-566) calls it.\<close>

definition updateAll :: "xdefines \<Rightarrow> xpersist \<Rightarrow> xpersist" where
  "updateAll xd st =
     (if length (m_privatePagesList st) = 0 then st
      else
        let l = fold (updateAll_body xd) (m_privatePagesList st)
                  \<lparr>batchedStart = 0, batchedPages = 0, lastpage = 0xFFFFFFF0, ua_st = st\<rparr>;
            st1 = (if 0 <s batchedPages l
                   then updateBatchedPages xd (batchedPages l) (batchedStart l) (ua_st l)
                   else ua_st l);
            st2 = st1\<lparr>m_privatePagesList := []\<rparr>
        in xpagestore_cleanup (xpageentry_cleanup st2))"

definition begin_transaction :: "xdefines \<Rightarrow> xpersist \<Rightarrow> xpersist" where
  "begin_transaction xd st = updateAll xd st"

subsection \<open>Cross-process counters\<close>

text \<open>\<^verbatim>\<open>recordCacheInvalidates\<close> (lines 486-503); the result is \<^verbatim>\<open>interleaving\<close>.\<close>

definition recordCacheInvalidates :: "ulong \<Rightarrow> ulong \<Rightarrow> xpersist \<Rightarrow> ulong \<times> xpersist" where
  "recordCacheInvalidates pageNo1 cacheNo st =
     (let myTid = getpid st;
          (lastTid, arr) = atomic_exchange (m_cacheLastthread st) cacheNo myTid;
          st1 = st\<lparr>m_cacheLastthread := arr\<rparr>
      in if lastTid \<noteq> 0 \<and> lastTid \<noteq> myTid
         then (1, st1\<lparr>m_cacheInvalidates := atomic_increment (m_cacheInvalidates st1) cacheNo\<rparr>)
         else (0, st1))"

text \<open>
  \<^verbatim>\<open>recordWordChanges\<close> applied to the record at a byte offset of the shared array
  \<^verbatim>\<open>_wordChanges\<close>, and the offset of \<^verbatim>\<open>&globalChanges[i]\<close> (line 646).
\<close>

definition recordWordChanges_at :: "ulong \<Rightarrow> ulong \<Rightarrow> xpersist \<Rightarrow> xpersist" where
  "recordWordChanges_at addr changes st =
     st\<lparr>m_wordChanges := (m_wordChanges st)
           (addr := recordWordChanges (getpid st) (m_wordChanges st addr) changes)\<rparr>"

definition globalChanges_addr :: "xdefines \<Rightarrow> pageinfo \<Rightarrow> nat \<Rightarrow> ulong" where
  "globalChanges_addr xd pageinfo1 i = PageSize xd * pageNo pageinfo1 + of_nat (i * sizeof_ulong)"

subsection \<open>Interim recording and the periodic check\<close>

text \<open>The local variables of \<^verbatim>\<open>recordChangesAndUpdate\<close> that live across its loop.\<close>

record record_locals =
  rl_twin :: buffer
  rl_wordChanges :: "ulong list"
  rl_interWrites :: ulong
  rl_recordedCacheNo :: ulong
  rl_st :: xpersist

text \<open>The body of the loop of lines 537-560 for word \<open>i\<close>; \<open>local\<close> is the working page.\<close>

definition recordChanges_body ::
  "xdefines \<Rightarrow> pageinfo \<Rightarrow> bool \<Rightarrow> buffer \<Rightarrow> nat \<Rightarrow> record_locals \<Rightarrow> record_locals" where
  "recordChanges_body xd pageinfo1 createTempPage local i l =
     (if word_at local i \<noteq> word_at (rl_twin l) i then
        let cacheNo = drop_bit 4 (of_nat i :: ulong);
            l1 = (if cacheNo \<noteq> rl_recordedCacheNo l then
                    let (r, st1) = recordCacheInvalidates (pageNo pageinfo1)
                                     (pageNo pageinfo1 * CACHES_PER_PAGE xd + cacheNo) (rl_st l)
                    in l\<lparr>rl_interWrites := rl_interWrites l + r, rl_st := st1,
                         rl_recordedCacheNo := cacheNo\<rparr>
                  else l);
            l2 = (if createTempPage = False
                  then l1\<lparr>rl_twin := word_assign (rl_twin l1) local i\<rparr>
                  else l1)
        in l2\<lparr>rl_wordChanges := (rl_wordChanges l2)[i := rl_wordChanges l2 ! i + 1]\<rparr>
      else l)"

text \<open>
  \<^verbatim>\<open>recordChangesAndUpdate\<close> (lines 506-561). The page record is passed by pointer in
  the source; here the updated record is returned with the state. With
  \<^verbatim>\<open>createTempPage\<close> the twin is the original twin, and \<^verbatim>\<open>memcpy\<close> overwrites it with
  the working page before the loop compares the two.
\<close>

definition recordChangesAndUpdate ::
  "xdefines \<Rightarrow> pageinfo \<Rightarrow> bool \<Rightarrow> xpersist \<Rightarrow> pageinfo \<times> xpersist" where
  "recordChangesAndUpdate xd pageinfo0 createTempPage st =
     (let local = transient st (pageStart pageinfo0);
          pageinfo1 = (if createTempPage
                       then pageinfo0\<lparr>origTwinPage :=
                              memcpy (origTwinPage pageinfo0) local (unat (PageSize xd))\<rparr>
                       else pageinfo0);
          twin = (if createTempPage then origTwinPage pageinfo1 else tempTwinPage pageinfo1);
          l = fold (recordChanges_body xd pageinfo1 createTempPage local)
                [0..<unat (PageSize xd) div sizeof_ulong]
                \<lparr>rl_twin = twin, rl_wordChanges = wordChanges pageinfo1, rl_interWrites = 0,
                 rl_recordedCacheNo = 0xFFFFFFFF, rl_st = st\<rparr>;
          pageinfo2 = (if createTempPage then pageinfo1\<lparr>origTwinPage := rl_twin l\<rparr>
                       else pageinfo1\<lparr>tempTwinPage := rl_twin l\<rparr>)
      in (pageinfo2\<lparr>wordChanges := rl_wordChanges l\<rparr>, rl_st l))"

text \<open>
  \<^verbatim>\<open>allocResourcesForSharedPage\<close> (lines 433-441): two blocks of the page store; the
  first is zeroed by \<^verbatim>\<open>memset\<close> and read as words, the second keeps the contents it has.
\<close>

definition allocResourcesForSharedPage :: "xdefines \<Rightarrow> pageinfo \<Rightarrow> xpersist \<Rightarrow> pageinfo \<times> xpersist" where
  "allocResourcesForSharedPage xd pageinfo0 st =
     (let (block1, st1) = xpagestore_alloc st;
          (block2, st2) = xpagestore_alloc st1;
          pageinfo1 = pageinfo0\<lparr>tempTwinPage := block2\<rparr>;
          pageinfo2 = pageinfo1\<lparr>wordChanges := replicate (unat (PageSize xd) div sizeof_ulong) 0\<rparr>
      in (pageinfo2\<lparr>alloced := True\<rparr>, st2))"

text \<open>
  The body of the loop of \<^verbatim>\<open>periodicCheck\<close> (lines 449-483) for one page record. The
  variable \<^verbatim>\<open>createTempPage\<close> is declared before the loop (line 447), so its value is
  passed in and out; the first result component \<open>pageinfo\<close> is the record after the
  iteration.
\<close>

definition periodicCheck_body ::
  "xdefines \<Rightarrow> pageinfo \<Rightarrow> bool \<Rightarrow> xpersist \<Rightarrow> pageinfo \<times> bool \<times> xpersist" where
  "periodicCheck_body xd pageinfo0 createTempPage st =
     (if shared pageinfo0 \<noteq> True \<and> atomic_read (m_pageUsers st) (pageNo pageinfo0) = 1
      then (pageinfo0, createTempPage, st)
      else
        let pageinfo1 = (if shared pageinfo0 \<noteq> True then pageinfo0\<lparr>shared := True\<rparr> else pageinfo0)
        in if shared pageinfo1 = True then
             let (pageinfo2, createTempPage1, st1) =
                   (if alloced pageinfo1 = False
                    then (let (p, s) = allocResourcesForSharedPage xd pageinfo1 st in (p, True, s))
                    else (pageinfo1, createTempPage, st));
                 (pageinfo3, st2) = recordChangesAndUpdate xd pageinfo2 createTempPage1 st1
             in (pageinfo3, createTempPage1, st2)
           else (pageinfo1, createTempPage, st))"

fun periodicCheck_loop ::
  "xdefines \<Rightarrow> (ulong \<times> pageinfo) list \<Rightarrow> bool \<Rightarrow> xpersist \<Rightarrow> (ulong \<times> pageinfo) list \<times> bool \<times> xpersist" where
  "periodicCheck_loop xd [] createTempPage st = ([], createTempPage, st)"
| "periodicCheck_loop xd ((k, pageinfo0) # rest) createTempPage st =
     (let (pageinfo1, createTempPage1, st1) = periodicCheck_body xd pageinfo0 createTempPage st;
          (rest1, createTempPage2, st2) = periodicCheck_loop xd rest createTempPage1 st1
      in ((k, pageinfo1) # rest1, createTempPage2, st2))"

text \<open>\<^verbatim>\<open>periodicCheck\<close> (lines 444-484).\<close>

definition periodicCheck :: "xdefines \<Rightarrow> xpersist \<Rightarrow> xpersist" where
  "periodicCheck xd st =
     (let (pages, createTempPage, st1) = periodicCheck_loop xd (m_privatePagesList st) False st
      in st1\<lparr>m_privatePagesList := pages\<rparr>)"

subsection \<open>Commit\<close>

text \<open>
  The SSE2 intrinsics of the vectorized path, on 16-byte chunks: an aligned load, the
  byte-wise comparison (\<open>0xFF\<close> in a lane whose bytes are equal, 0 otherwise), the bit-wise
  exclusive or, and the masked store, which writes the lanes whose mask byte has its high
  bit set. \<^verbatim>\<open>allones\<close> is the constant the constructor builds (lines 161-165).
\<close>

definition mm_load_si128 :: "buffer \<Rightarrow> nat \<Rightarrow> byte list" where
  "mm_load_si128 buf i = map (\<lambda>k. buf ! (i * sizeof_m128i + k)) [0..<sizeof_m128i]"

definition mm_cmpeq_epi8 :: "byte list \<Rightarrow> byte list \<Rightarrow> byte list" where
  "mm_cmpeq_epi8 a b = map2 (\<lambda>x y. if x = y then 0xFF else 0) a b"

definition mm_xor_si128 :: "byte list \<Rightarrow> byte list \<Rightarrow> byte list" where
  "mm_xor_si128 a b = map2 (\<lambda>x y. x XOR y) a b"

definition allones :: "byte list" where
  "allones = replicate sizeof_m128i 0xFF"

definition mm_maskmoveu_si128 :: "byte list \<Rightarrow> byte list \<Rightarrow> buffer \<Rightarrow> nat \<Rightarrow> buffer" where
  "mm_maskmoveu_si128 d n buf off =
     fold (\<lambda>k b. if bit (n ! k) 7 then b[off + k := d ! k] else b) [0..<sizeof_m128i] buf"

text \<open>
  \<^verbatim>\<open>commitPageDiffs\<close> (lines 569-606) has two bodies, chosen by \<^verbatim>\<open>SSE_SUPPORT\<close>. Both
  are given on the three buffers: the working page, the twin and the destination page;
  the result is the destination page.
\<close>

definition commitPageDiffs_SSE_body :: "buffer \<Rightarrow> buffer \<Rightarrow> nat \<Rightarrow> buffer \<Rightarrow> buffer" where
  "commitPageDiffs_SSE_body local twin i dest =
     (let localChunk = mm_load_si128 local i;
          twinChunk = mm_load_si128 twin i;
          eqChunk = mm_cmpeq_epi8 localChunk twinChunk;
          neqChunk = mm_xor_si128 allones eqChunk
      in mm_maskmoveu_si128 localChunk neqChunk dest (i * sizeof_m128i))"

definition commitPageDiffs_SSE :: "xdefines \<Rightarrow> buffer \<Rightarrow> buffer \<Rightarrow> buffer \<Rightarrow> buffer" where
  "commitPageDiffs_SSE xd local twin dest =
     fold (commitPageDiffs_SSE_body local twin) [0..<unat (PageSize xd) div sizeof_m128i] dest"

definition commitPageDiffs_portable_body :: "buffer \<Rightarrow> buffer \<Rightarrow> nat \<Rightarrow> buffer \<Rightarrow> buffer" where
  "commitPageDiffs_portable_body local twin i dest =
     (if word_at local i \<noteq> word_at twin i then word_assign dest local i else dest)"

definition commitPageDiffs_portable :: "xdefines \<Rightarrow> buffer \<Rightarrow> buffer \<Rightarrow> buffer \<Rightarrow> buffer" where
  "commitPageDiffs_portable xd local twin dest =
     fold (commitPageDiffs_portable_body local twin) [0..<unat (PageSize xd) div sizeof_ulong] dest"

definition commitPageDiffs :: "xdefines \<Rightarrow> bool \<Rightarrow> buffer \<Rightarrow> buffer \<Rightarrow> ulong \<Rightarrow> xpersist \<Rightarrow> xpersist" where
  "commitPageDiffs xd SSE_SUPPORT local twin pageNo1 st =
     st\<lparr>persistent := (persistent st)
           (pageNo1 := (if SSE_SUPPORT
                        then commitPageDiffs_SSE xd local twin (persistent st pageNo1)
                        else commitPageDiffs_portable xd local twin (persistent st pageNo1)))\<rparr>"

text \<open>
  \<^verbatim>\<open>checkCommitWord\<close> (lines 608-616) on the word at byte offset \<open>off\<close> of the three
  pages; the result is the persistent page.
\<close>

definition checkCommitWord :: "buffer \<Rightarrow> buffer \<Rightarrow> buffer \<Rightarrow> nat \<Rightarrow> buffer" where
  "checkCommitWord local twin share off =
     fold (\<lambda>i s. if local ! (off + i) \<noteq> twin ! (off + i) then s[off + i := local ! (off + i)] else s)
       [0..<sizeof_ulong] share"

text \<open>The local variables of \<^verbatim>\<open>checkcommitpage\<close> that live across its loop.\<close>

record commit_locals =
  cl_recordedCacheNo :: ulong
  cl_interWrites :: ulong
  cl_st :: xpersist

text \<open>The body of the loop of lines 655-687 for word \<open>i\<close>.\<close>

definition checkcommitpage_body ::
  "xdefines \<Rightarrow> pageinfo \<Rightarrow> buffer \<Rightarrow> nat \<Rightarrow> commit_locals \<Rightarrow> commit_locals" where
  "checkcommitpage_body xd pageinfo1 local i l =
     (let twin = origTwinPage pageinfo1;
          tempTwin = tempTwinPage pageinfo1;
          localChanges = wordChanges pageinfo1;
          g = globalChanges_addr xd pageinfo1 i
      in if word_at local i = word_at twin i then
           (if localChanges ! i \<noteq> 0
            then l\<lparr>cl_st := recordWordChanges_at g (localChanges ! i) (cl_st l)\<rparr>
            else l)
         else
           let l2 = (if word_at local i \<noteq> word_at tempTwin i then
                       let cacheNo = drop_bit 4 (of_nat i :: ulong);
                           l1 = (if cacheNo \<noteq> cl_recordedCacheNo l then
                                   let (r, st1) = recordCacheInvalidates (pageNo pageinfo1)
                                                    (pageNo pageinfo1 * CACHES_PER_PAGE xd + cacheNo) (cl_st l)
                                   in l\<lparr>cl_interWrites := cl_interWrites l + r, cl_st := st1,
                                        cl_recordedCacheNo := cacheNo\<rparr>
                                 else l)
                       in l1\<lparr>cl_st := recordWordChanges_at g (localChanges ! i + 1) (cl_st l1)\<rparr>
                     else l\<lparr>cl_st := recordWordChanges_at g (localChanges ! i) (cl_st l)\<rparr>);
               st2 = cl_st l2
           in l2\<lparr>cl_st := st2\<lparr>persistent := (persistent st2)
                     (pageNo pageinfo1 :=
                        checkCommitWord local twin (persistent st2 (pageNo pageinfo1)) (i * sizeof_ulong))\<rparr>\<rparr>)"

text \<open>\<^verbatim>\<open>checkcommitpage\<close> (lines 639-688), with its locals and with the final state alone.\<close>

definition checkcommitpage_locals :: "xdefines \<Rightarrow> pageinfo \<Rightarrow> xpersist \<Rightarrow> commit_locals" where
  "checkcommitpage_locals xd pageinfo1 st =
     fold (checkcommitpage_body xd pageinfo1 (transient st (pageStart pageinfo1)))
       [0..<unat (PageSize xd) div sizeof_ulong]
       \<lparr>cl_recordedCacheNo = 0xFFFFFFFF, cl_interWrites = 0, cl_st = st\<rparr>"

definition checkcommitpage :: "xdefines \<Rightarrow> pageinfo \<Rightarrow> xpersist \<Rightarrow> xpersist" where
  "checkcommitpage xd pageinfo1 st = cl_st (checkcommitpage_locals xd pageinfo1 st)"

text \<open>\<^verbatim>\<open>commit\<close> (lines 755-783).\<close>

definition commit :: "xdefines \<Rightarrow> bool \<Rightarrow> bool \<Rightarrow> xpersist \<Rightarrow> xpersist" where
  "commit xd SSE_SUPPORT doChecking st =
     (if length (m_privatePagesList st) = 0 then st
      else fold (\<lambda>entry s.
                   let pageinfo1 = snd entry in
                   if shared pageinfo1 = True \<and> alloced pageinfo1 = True
                   then checkcommitpage xd pageinfo1 s
                   else commitPageDiffs xd SSE_SUPPORT (transient s (pageStart pageinfo1))
                          (origTwinPage pageinfo1) (pageNo pageinfo1) s)
             (m_privatePagesList st) st)"

subsection \<open>Concrete values\<close>

text \<open>
  A set of constants for \<^verbatim>\<open>xdefines\<close> that agrees with the code: 4096-byte pages, and
  cache lines of 16 words (the code computes a cache line as \<^verbatim>\<open>i >> 4\<close>), so 64 bytes
  and 64 lines per page.
\<close>

definition xdefines_x86 :: xdefines where
  "xdefines_x86 = \<lparr> PageSize = 4096, PAGE_SIZE_MASK = 4095, CACHE_LINE_SIZE = 64, CACHES_PER_PAGE = 64 \<rparr>"

text \<open>Answers of an operating system on which every call of the constructor succeeds.\<close>

definition os_ok :: os_answers where
  "os_ok = \<lparr> mkstemp_fd = 3, ftruncate_rc = 0, persistent_map = 0x40000000, transient_map = 0x08100000 \<rparr>"

text \<open>
  The smallest multiple of the page size that is greater than or equal to \<open>S\<close>, as the
  specification words the recorded size of a globals region.
\<close>

definition spec_round_up_to_page :: "nat \<Rightarrow> nat \<Rightarrow> nat" where
  "spec_round_up_to_page P S = ((S + P - 1) div P) * P"

text \<open>
  Three pages of 4096 bytes: a working page whose first byte is 1, a twin of zeros, and a
  destination that differs from the twin in its second byte (another process committed
  that byte).
\<close>

definition page_local_ex :: buffer where
  "page_local_ex = 1 # replicate 4095 0"

definition page_twin_ex :: buffer where
  "page_twin_ex = replicate 4096 0"

definition page_dest_ex :: buffer where
  "page_dest_ex = 0 # 1 # replicate 4094 0"

text \<open>
  A state of process 100 on a heap region based at \<open>0x08100000\<close>: it has dirtied page
  0, whose working copy is the page above and whose original twin is the page of zeros;
  process 200 was the last to write the first cache line. The blocks of the page store
  hold zeros.
\<close>

definition pageinfo_ex :: pageinfo where
  "pageinfo_ex = \<lparr> pageNo = 0, pageStart = 0x08100000, origTwinPage = page_twin_ex,
                    tempTwinPage = [], wordChanges = [], shared = False, alloced = False \<rparr>"

definition xpersist_ex :: xpersist where
  "xpersist_ex =
     \<lparr> m_startaddr = 0, m_startsize = 0, m_isHeap = True, m_backingFd = 3,
       m_persistentMemory = 0x40000000, m_transientMemory = 0x08100000, m_isProtected = True,
       getpid = 100,
       transient = (\<lambda>a. if a = 0x08100000 then page_local_ex else page_twin_ex),
       persistent = (\<lambda>n. page_twin_ex),
       m_privatePagesList = [(0, pageinfo_ex)],
       m_cacheLastthread = (\<lambda>c. if c = 0 then 200 else 0),
       m_cacheInvalidates = (\<lambda>c. 0),
       m_pageUsers = (\<lambda>n. if n = 0 then 1 else 0),
       m_wordChanges = (\<lambda>a. \<lparr>tid = 0, version = 0\<rparr>),
       syscalls = [],
       xpageentry_blocks = (\<lambda>n. pageinfo_ex), xpageentry_used = 1,
       xpagestore_blocks = (\<lambda>n. page_twin_ex), xpagestore_used = 0 \<rparr>"

text \<open>
  The same state once the page is contended: two processes have dirtied page 0 and the
  page record is marked shared. The second record is that page after its promotion.
\<close>

definition xpersist_contended_ex :: xpersist where
  "xpersist_contended_ex =
     xpersist_ex\<lparr>m_privatePagesList := [(0, pageinfo_ex\<lparr>shared := True\<rparr>)],
                 m_pageUsers := (\<lambda>n. if n = 0 then 2 else 0)\<rparr>"

definition pageinfo_promoted_ex :: pageinfo where
  "pageinfo_promoted_ex =
     pageinfo_ex\<lparr>shared := True, tempTwinPage := page_twin_ex,
                  wordChanges := replicate 1024 0, alloced := True,
                  origTwinPage := memcpy page_twin_ex page_local_ex 4096\<rparr>"

text \<open>
  The page record at commit after the second word was changed and changed back: the word
  equals the original twin again, and the interim recordings counted three changes of it.
\<close>

definition pageinfo_aba_ex :: pageinfo where
  "pageinfo_aba_ex = \<lparr> pageNo = 0, pageStart = 0x08100000, origTwinPage = page_twin_ex,
                        tempTwinPage = page_local_ex, wordChanges = 0 # 3 # replicate 1022 0,
                        shared = True, alloced = True \<rparr>"




section \<open>Properties\<close>

subsection \<open>Word change records\<close>

lemma recordWordChanges_sentinel:
  "tid w = 0xFFFF \<Longrightarrow> tid (recordWordChanges mine w c) = 0xFFFF"
  by (simp add: recordWordChanges_def Let_def)

lemma recordWordChanges_version:
  "version (recordWordChanges mine w c) = version w + ucast c"
  by (simp add: recordWordChanges_def Let_def)

text \<open>
  C10. Once the owner field of a word change record holds the sentinel \<open>0xFFFF\<close>, every
  later call of \<^verbatim>\<open>recordWordChanges\<close>, by whatever process and with whatever count,
  leaves the owner equal to the sentinel, and each call still adds its count to the version
  field (a 16-bit field, so the sum is taken modulo \<open>2^16\<close>).
\<close>

theorem recordWordChanges_sentinel_is_final:
  "tid w = 0xFFFF \<Longrightarrow>
     tid (recordWordChanges_calls calls w) = 0xFFFF \<and>
     version (recordWordChanges_calls calls w) = version w + sum_list (map (\<lambda>c. ucast (snd c)) calls)"
proof (induction calls arbitrary: w)
  case Nil
  then show ?case by (simp add: recordWordChanges_calls_def)
next
  case (Cons a calls)
  obtain m c where a: "a = (m, c)" by (cases a)
  have t: "tid (recordWordChanges m w c) = 0xFFFF"
    using Cons.prems by (rule recordWordChanges_sentinel)
  have eq: "recordWordChanges_calls (a # calls) w =
            recordWordChanges_calls calls (recordWordChanges m w c)"
    by (simp add: recordWordChanges_calls_def a)
  show ?case
    using Cons.IH [OF t] unfolding eq by (simp add: a recordWordChanges_version add.assoc)
qed

theorem recordWordChanges_sentinel_is_final_witness:
  "tid \<lparr>tid = 0xFFFF, version = 7\<rparr> = 0xFFFF \<and>
   tid (recordWordChanges_calls [(100, 3), (200, 5)] \<lparr>tid = 0xFFFF, version = 7\<rparr>) = 0xFFFF \<and>
   version (recordWordChanges_calls [(100, 3), (200, 5)] \<lparr>tid = 0xFFFF, version = 7\<rparr>) = 15"
  using recordWordChanges_sentinel_is_final [of "\<lparr>tid = 0xFFFF, version = 7\<rparr>" "[(100, 3), (200, 5)]"]
  by simp

subsection \<open>Region size\<close>

lemma unat_next_page_multiple:
  fixes S P :: ulong
  assumes "0 < unat P" and "unat S + unat P < 2 ^ 32"
  shows "unat ((S div P + 1) * P) = (unat S div unat P + 1) * unat P"
proof -
  have le: "unat S div unat P * unat P \<le> unat S" by simp
  have e: "(unat S div unat P + 1) * unat P = unat S div unat P * unat P + unat P" by simp
  have b: "(unat S div unat P + 1) * unat P < 2 ^ 32"
    unfolding e using assms le by linarith
  have "unat S div unat P + 1 \<le> (unat S div unat P + 1) * unat P"
    using assms(1) by (cases "unat P") simp_all
  with b have b1: "unat S div unat P + 1 < 2 ^ 32" by linarith
  have "unat (S div P + 1) = unat S div unat P + 1"
    using b1 by (simp add: unat_word_ariths unat_div)
  then show ?thesis using b by (simp add: unat_word_ariths)
qed

lemma less_next_page_multiple:
  fixes S P :: nat
  assumes "0 < P"
  shows "S < (S div P + 1) * P"
proof -
  have "S = S div P * P + S mod P" by simp
  moreover have "S mod P < P" using assms by simp
  ultimately have "S < S div P * P + P" by linarith
  then show ?thesis by simp
qed

lemma next_page_multiple_least:
  fixes S P m :: nat
  assumes "0 < P" and "P dvd m" and "S < m"
  shows "(S div P + 1) * P \<le> m"
proof -
  from assms(2) obtain k where m: "m = k * P" by (metis dvd_def mult.commute)
  have "S div P < k"
    using assms(1,3) unfolding m by (simp add: less_mult_imp_div_less)
  then have "S div P + 1 \<le> k" by simp
  then show ?thesis unfolding m by (rule mult_le_mono1)
qed

text \<open>
  What the constructor records. A region constructed with a start address (globals) gets
  \<open>(S div PageSize + 1) * PageSize\<close> as its size: when this does not overflow, it is a
  multiple of the page size and strictly greater than \<open>S\<close>. A region constructed without
  a start address (heap) has size \<open>NElts * sizeof(Type)\<close>.
\<close>

lemma size_after_constructor:
  assumes "xpersist_ctor xd NElts sizeofType os startaddr S = Inr r"
  shows "(startaddr = 0 \<longrightarrow> region_size NElts sizeofType r = NElts * sizeofType) \<and>
         (startaddr \<noteq> 0 \<longrightarrow>
            region_size NElts sizeofType r = (S div PageSize xd + 1) * PageSize xd) \<and>
         (startaddr \<noteq> 0 \<and> 0 < unat (PageSize xd) \<and> unat S + unat (PageSize xd) < 2 ^ 32 \<longrightarrow>
            unat (region_size NElts sizeofType r) = (unat S div unat (PageSize xd) + 1) * unat (PageSize xd) \<and>
            unat (PageSize xd) dvd unat (region_size NElts sizeofType r) \<and>
            unat S < unat (region_size NElts sizeofType r) \<and>
            (\<forall>m. unat (PageSize xd) dvd m \<and> unat S < m \<longrightarrow> unat (region_size NElts sizeofType r) \<le> m))"
proof -
  have heap: "startaddr = 0 \<Longrightarrow> region_size NElts sizeofType r = NElts * sizeofType"
    using assms by (auto simp: xpersist_ctor_def region_size_def Let_def split: if_splits)
  have globals: "startaddr \<noteq> 0 \<Longrightarrow>
      region_size NElts sizeofType r = (S div PageSize xd + 1) * PageSize xd"
    using assms by (auto simp: xpersist_ctor_def region_size_def Let_def split: if_splits)
  have nat: "unat (region_size NElts sizeofType r) = (unat S div unat (PageSize xd) + 1) * unat (PageSize xd) \<and>
            unat (PageSize xd) dvd unat (region_size NElts sizeofType r) \<and>
            unat S < unat (region_size NElts sizeofType r) \<and>
            (\<forall>m. unat (PageSize xd) dvd m \<and> unat S < m \<longrightarrow> unat (region_size NElts sizeofType r) \<le> m)"
    if a: "startaddr \<noteq> 0" and p: "0 < unat (PageSize xd)"
      and b: "unat S + unat (PageSize xd) < 2 ^ 32"
  proof -
    have u: "unat (region_size NElts sizeofType r) = (unat S div unat (PageSize xd) + 1) * unat (PageSize xd)"
      unfolding globals [OF a] using p b by (rule unat_next_page_multiple)
    have gt: "unat S < (unat S div unat (PageSize xd) + 1) * unat (PageSize xd)"
      using p by (rule less_next_page_multiple)
    have least: "\<forall>m. unat (PageSize xd) dvd m \<and> unat S < m \<longrightarrow>
                  (unat S div unat (PageSize xd) + 1) * unat (PageSize xd) \<le> m"
      using p by (blast intro: next_page_multiple_least)
    have d: "unat (PageSize xd) dvd (unat S div unat (PageSize xd) + 1) * unat (PageSize xd)"
      by (rule dvd_triv_right)
    show ?thesis
      unfolding u using gt least d by blast
  qed
  show ?thesis using heap globals nat by blast
qed

text \<open>
  C9 at a region of 1048576 bytes with pages of 4096 bytes. For an initial content of 5000
  bytes the recorded size is 8192, the smallest multiple of the page size that is at least
  5000. For 4096 bytes, already a multiple, that multiple is 4096 and the recorded size is
  8192. For 1048576 bytes, which the size check of line 73 admits, the recorded size is
  1052672: one page more than the mapping itself.
\<close>

theorem xpersist_ctor_size_at_page_multiple:
  "\<not> isl (xpersist_ctor xdefines_x86 1048576 1 os_ok 0x08049000 5000) \<and>
   unat (region_size 1048576 1 (projr (xpersist_ctor xdefines_x86 1048576 1 os_ok 0x08049000 5000))) = 8192 \<and>
   spec_round_up_to_page (unat (PageSize xdefines_x86)) 5000 = 8192 \<and>
   \<not> isl (xpersist_ctor xdefines_x86 1048576 1 os_ok 0x08049000 4096) \<and>
   unat (region_size 1048576 1 (projr (xpersist_ctor xdefines_x86 1048576 1 os_ok 0x08049000 4096))) = 8192 \<and>
   spec_round_up_to_page (unat (PageSize xdefines_x86)) 4096 = 4096 \<and>
   \<not> isl (xpersist_ctor xdefines_x86 1048576 1 os_ok 0x08049000 1048576) \<and>
   unat (region_size 1048576 1 (projr (xpersist_ctor xdefines_x86 1048576 1 os_ok 0x08049000 1048576))) = 1052672 \<and>
   spec_round_up_to_page (unat (PageSize xdefines_x86)) 1048576 = 1048576"
  by (simp add: xpersist_ctor_def xdefines_x86_def os_ok_def MAP_FAILED_def Let_def
      region_size_def spec_round_up_to_page_def)

subsection \<open>The page number of a write\<close>

lemma computePage_bytes:
  "computePage xd 1 index = index div PageSize xd"
  by (simp add: computePage_def)

lemma handleWrite_pageNo:
  "map (\<lambda>e. pageNo (snd e)) (m_privatePagesList (handleWrite xd sizeofType addr (st\<lparr>m_privatePagesList := []\<rparr>))) =
     [computePage xd sizeofType (addr - base st)]"
  by (simp add: handleWrite_def Let_def base_def xpageentry_alloc_def
      atomic_increment_and_return_def split: prod.splits)

text \<open>
  C8 at a region of 4-byte elements based at \<open>0x10000000\<close>, with 4096-byte pages. The write
  at \<open>0x10001000\<close> lies in the page at offset 4096, which is page 1 of the region;
  \<^verbatim>\<open>handleWrite\<close> hands the byte offset to \<^verbatim>\<open>computePage\<close>, which multiplies it by
  \<^verbatim>\<open>sizeof(Type)\<close>, and the metadata records page 4 (under key 4) with the start address
  of page 1.
\<close>

theorem handleWrite_pageNo_four_byte_elements:
  "map (\<lambda>e. (fst e, pageNo (snd e), pageStart (snd e)))
     (m_privatePagesList (handleWrite xdefines_x86 4 0x10001000
        (st\<lparr>m_transientMemory := 0x10000000, m_privatePagesList := []\<rparr>))) = [(4, 4, 0x10001000)] \<and>
   (0x10001000 - base (st\<lparr>m_transientMemory := 0x10000000, m_privatePagesList := []\<rparr>))
      div PageSize xdefines_x86 = 1"
  by (simp add: handleWrite_def Let_def computePage_def base_def xpageentry_alloc_def
      atomic_increment_and_return_def xdefines_x86_def split: prod.splits)

subsection \<open>Transaction reset\<close>

text \<open>
  C1 at the pages 3, 4 and 5. The loop of \<^verbatim>\<open>updateAll\<close> advances \<^verbatim>\<open>lastpage\<close> only
  when it starts a batch, so page 5 is compared with \<open>3 + 1\<close>: the batch of pages 3 and 4
  is flushed (two pages from the start of page 3) and page 5 is flushed by a second call of
  its own. Each flush is one \<^verbatim>\<open>madvise\<close> and one \<^verbatim>\<open>mprotect\<close>.
\<close>

theorem updateAll_pages_3_4_5:
  "syscalls (updateAll xd (st\<lparr>m_privatePagesList := [(3, p3), (4, p4), (5, p5)]\<rparr>)) =
     syscalls st @
       [Madvise_DONTNEED (pageStart p3) (2 * PageSize xd), Mprotect (pageStart p3) (2 * PageSize xd) PROT_READ,
        Madvise_DONTNEED (pageStart p5) (PageSize xd), Mprotect (pageStart p5) (PageSize xd) PROT_READ]"
  by (simp add: updateAll_def updateAll_body_def Let_def updateBatchedPages_def updatePages_def
      xpagestore_cleanup_def xpageentry_cleanup_def word_sless_alt)


subsection \<open>Loops that write bytes\<close>

lemma cond_update_loop:
  "length (fold (\<lambda>k b. if c k then b[off + k := v k] else b) [0..<m] buf) = length buf \<and>
   (\<forall>j. j < length buf \<longrightarrow>
      (fold (\<lambda>k b. if c k then b[off + k := v k] else b) [0..<m] buf) ! j =
      (if off \<le> j \<and> j < off + m \<and> c (j - off) then v (j - off) else buf ! j))"
proof (induction m)
  case 0
  show ?case by auto
next
  case (Suc m)
  let ?f = "\<lambda>k b. if c k then b[off + k := v k] else b"
  let ?r = "fold ?f [0..<m] buf"
  have len: "length ?r = length buf" using Suc.IH by blast
  have nth: "\<And>j. j < length buf \<Longrightarrow>
      ?r ! j = (if off \<le> j \<and> j < off + m \<and> c (j - off) then v (j - off) else buf ! j)"
    using Suc.IH by blast
  have step: "fold ?f [0..<Suc m] buf = ?f m ?r" by simp
  show ?case
  proof (intro conjI allI impI)
    show "length (fold ?f [0..<Suc m] buf) = length buf"
      unfolding step using len by simp
  next
    fix j assume j: "j < length buf"
    show "fold ?f [0..<Suc m] buf ! j =
          (if off \<le> j \<and> j < off + Suc m \<and> c (j - off) then v (j - off) else buf ! j)"
    proof (cases "j = off + m")
      case True
      then show ?thesis unfolding step using j len nth [OF j] by simp
    next
      case False
      then have "?f m ?r ! j = ?r ! j" by simp
      moreover have "(off \<le> j \<and> j < off + Suc m \<and> c (j - off)) = (off \<le> j \<and> j < off + m \<and> c (j - off))"
        using False by auto
      ultimately show ?thesis unfolding step using nth [OF j] by simp
    qed
  qed
qed

lemma block_loop:
  assumes step: "\<And>i d. length (f i d) = length d \<and>
            (\<forall>j. j < length d \<longrightarrow> f i d ! j = (if b * i \<le> j \<and> j < b * i + b then h j (d ! j) else d ! j))"
  shows "length (fold f [0..<n] d) = length d \<and>
         (\<forall>j. j < length d \<longrightarrow> fold f [0..<n] d ! j = (if j < b * n then h j (d ! j) else d ! j))"
proof (induction n)
  case 0
  show ?case by simp
next
  case (Suc n)
  let ?r = "fold f [0..<n] d"
  have len: "length ?r = length d" using Suc.IH by blast
  have nth: "\<And>j. j < length d \<Longrightarrow> ?r ! j = (if j < b * n then h j (d ! j) else d ! j)"
    using Suc.IH by blast
  have st: "fold f [0..<Suc n] d = f n ?r" by simp
  have l2: "length (f n ?r) = length d" using step [of n ?r] len by simp
  have n2: "\<And>j. j < length d \<Longrightarrow> f n ?r ! j = (if b * n \<le> j \<and> j < b * n + b then h j (?r ! j) else ?r ! j)"
    using step [of n ?r] len by simp
  show ?case
  proof (intro conjI allI impI)
    show "length (fold f [0..<Suc n] d) = length d" unfolding st by (rule l2)
  next
    fix j assume j: "j < length d"
    show "fold f [0..<Suc n] d ! j = (if j < b * Suc n then h j (d ! j) else d ! j)"
      unfolding st n2 [OF j] nth [OF j] by auto
  qed
qed

lemma cond_update_loop_abs:
  "length (fold (\<lambda>k b. if C (off + k) then b[off + k := V (off + k)] else b) [0..<m] buf) = length buf \<and>
   (\<forall>j. j < length buf \<longrightarrow>
      (fold (\<lambda>k b. if C (off + k) then b[off + k := V (off + k)] else b) [0..<m] buf) ! j =
      (if off \<le> j \<and> j < off + m \<and> C j then V j else buf ! j))"
proof (intro conjI allI impI)
  show "length (fold (\<lambda>k b. if C (off + k) then b[off + k := V (off + k)] else b) [0..<m] buf) = length buf"
    using cond_update_loop [where c = "\<lambda>k. C (off + k)" and v = "\<lambda>k. V (off + k)"] by blast
next
  fix j assume j: "j < length buf"
  have g: "(fold (\<lambda>k b. if C (off + k) then b[off + k := V (off + k)] else b) [0..<m] buf) ! j =
      (if off \<le> j \<and> j < off + m \<and> C (off + (j - off)) then V (off + (j - off)) else buf ! j)"
    using cond_update_loop [where c = "\<lambda>k. C (off + k)" and v = "\<lambda>k. V (off + k)" and off = off
        and m = m and buf = buf] j by blast
  show "(fold (\<lambda>k b. if C (off + k) then b[off + k := V (off + k)] else b) [0..<m] buf) ! j =
      (if off \<le> j \<and> j < off + m \<and> C j then V j else buf ! j)"
    unfolding g by (cases "off \<le> j") simp_all
qed

lemma word_assign_nth:
  "length (word_assign dst src i) = length dst \<and>
   (\<forall>j. j < length dst \<longrightarrow>
      word_assign dst src i ! j =
      (if i * sizeof_ulong \<le> j \<and> j < i * sizeof_ulong + sizeof_ulong then src ! j else dst ! j))"
  using cond_update_loop_abs [where C = "\<lambda>_. True" and off = "i * sizeof_ulong"
      and V = "\<lambda>j. src ! j" and m = sizeof_ulong and buf = dst]
  by (simp add: word_assign_def)

lemma checkCommitWord_nth:
  "length (checkCommitWord local twin share off) = length share \<and>
   (\<forall>j. j < length share \<longrightarrow>
      checkCommitWord local twin share off ! j =
      (if off \<le> j \<and> j < off + sizeof_ulong \<and> local ! j \<noteq> twin ! j then local ! j else share ! j))"
  using cond_update_loop_abs [where C = "\<lambda>j. local ! j \<noteq> twin ! j" and off = off
      and V = "\<lambda>j. local ! j" and m = sizeof_ulong and buf = share]
  by (simp add: checkCommitWord_def)

lemma neq_lane:
  "k < sizeof_m128i \<Longrightarrow>
   bit (mm_xor_si128 allones (mm_cmpeq_epi8 (mm_load_si128 local i) (mm_load_si128 twin i)) ! k) 7 =
     (local ! (i * sizeof_m128i + k) \<noteq> twin ! (i * sizeof_m128i + k))"
  by (simp add: mm_xor_si128_def allones_def mm_cmpeq_epi8_def mm_load_si128_def)

lemma load_lane:
  "k < sizeof_m128i \<Longrightarrow> mm_load_si128 buf i ! k = buf ! (i * sizeof_m128i + k)"
  by (simp add: mm_load_si128_def)

lemma word_at_eq_iff:
  "(word_at a i = word_at b i) = (\<forall>k. k < sizeof_ulong \<longrightarrow> a ! (i * sizeof_ulong + k) = b ! (i * sizeof_ulong + k))"
  by (auto simp: word_at_def)

lemma SSE_body_nth:
  "length (commitPageDiffs_SSE_body local twin i dest) = length dest \<and>
   (\<forall>j. j < length dest \<longrightarrow>
      commitPageDiffs_SSE_body local twin i dest ! j =
      (if sizeof_m128i * i \<le> j \<and> j < sizeof_m128i * i + sizeof_m128i
       then (if local ! j \<noteq> twin ! j then local ! j else dest ! j) else dest ! j))"
proof (intro conjI allI impI)
  let ?n = "mm_xor_si128 allones (mm_cmpeq_epi8 (mm_load_si128 local i) (mm_load_si128 twin i))"
  let ?d = "mm_load_si128 local i"
  let ?off = "i * sizeof_m128i"
  have gen: "length (mm_maskmoveu_si128 ?d ?n dest ?off) = length dest \<and>
     (\<forall>j. j < length dest \<longrightarrow> mm_maskmoveu_si128 ?d ?n dest ?off ! j =
        (if ?off \<le> j \<and> j < ?off + sizeof_m128i \<and> bit (?n ! (j - ?off)) 7
         then ?d ! (j - ?off) else dest ! j))"
    unfolding mm_maskmoveu_si128_def
    by (rule cond_update_loop [where c = "\<lambda>k. bit (?n ! k) 7" and v = "\<lambda>k. ?d ! k"])
  show "length (commitPageDiffs_SSE_body local twin i dest) = length dest"
    using gen by (simp add: commitPageDiffs_SSE_body_def Let_def)
  fix j assume j: "j < length dest"
  have e: "commitPageDiffs_SSE_body local twin i dest ! j =
        (if ?off \<le> j \<and> j < ?off + sizeof_m128i \<and> bit (?n ! (j - ?off)) 7
         then ?d ! (j - ?off) else dest ! j)"
    using gen j by (simp add: commitPageDiffs_SSE_body_def Let_def)
  show "commitPageDiffs_SSE_body local twin i dest ! j =
      (if sizeof_m128i * i \<le> j \<and> j < sizeof_m128i * i + sizeof_m128i
       then (if local ! j \<noteq> twin ! j then local ! j else dest ! j) else dest ! j)"
  proof (cases "?off \<le> j \<and> j < ?off + sizeof_m128i")
    case True
    then have k: "j - ?off < sizeof_m128i" and jo: "?off + (j - ?off) = j" by auto
    show ?thesis
      unfolding e using True neq_lane [OF k, of local i twin] load_lane [OF k, of local i]
      by (simp add: jo mult.commute)
  next
    case False
    then show ?thesis unfolding e by (auto simp: mult.commute)
  qed
qed

lemma portable_body_nth:
  "length (commitPageDiffs_portable_body local twin i dest) = length dest \<and>
   (\<forall>j. j < length dest \<longrightarrow>
      commitPageDiffs_portable_body local twin i dest ! j =
      (if sizeof_ulong * i \<le> j \<and> j < sizeof_ulong * i + sizeof_ulong
       then (if word_at local (j div sizeof_ulong) \<noteq> word_at twin (j div sizeof_ulong)
             then local ! j else dest ! j)
       else dest ! j))"
proof (intro conjI allI impI)
  show "length (commitPageDiffs_portable_body local twin i dest) = length dest"
    using word_assign_nth [of dest local i] by (simp add: commitPageDiffs_portable_body_def)
  fix j assume j: "j < length dest"
  show "commitPageDiffs_portable_body local twin i dest ! j =
      (if sizeof_ulong * i \<le> j \<and> j < sizeof_ulong * i + sizeof_ulong
       then (if word_at local (j div sizeof_ulong) \<noteq> word_at twin (j div sizeof_ulong)
             then local ! j else dest ! j)
       else dest ! j)"
  proof (cases "sizeof_ulong * i \<le> j \<and> j < sizeof_ulong * i + sizeof_ulong")
    case True
    then have d: "j div sizeof_ulong = i"
      unfolding sizeof_ulong_def by presburger
    show ?thesis
      using True j word_assign_nth [of dest local i]
      by (simp add: commitPageDiffs_portable_body_def d mult.commute)
  next
    case False
    then show ?thesis
      using j word_assign_nth [of dest local i]
      by (auto simp: commitPageDiffs_portable_body_def mult.commute)
  qed
qed

lemma SSE_nth:
  "length (commitPageDiffs_SSE xd local twin dest) = length dest \<and>
   (\<forall>j. j < length dest \<longrightarrow>
      commitPageDiffs_SSE xd local twin dest ! j =
      (if j < sizeof_m128i * (unat (PageSize xd) div sizeof_m128i)
       then (if local ! j \<noteq> twin ! j then local ! j else dest ! j) else dest ! j))"
  unfolding commitPageDiffs_SSE_def
  by (rule block_loop [where h = "\<lambda>j x. if local ! j \<noteq> twin ! j then local ! j else x"])
     (rule SSE_body_nth)

lemma portable_nth:
  "length (commitPageDiffs_portable xd local twin dest) = length dest \<and>
   (\<forall>j. j < length dest \<longrightarrow>
      commitPageDiffs_portable xd local twin dest ! j =
      (if j < sizeof_ulong * (unat (PageSize xd) div sizeof_ulong)
       then (if word_at local (j div sizeof_ulong) \<noteq> word_at twin (j div sizeof_ulong)
             then local ! j else dest ! j)
       else dest ! j))"
  unfolding commitPageDiffs_portable_def
  by (rule block_loop [where h = "\<lambda>j x. if word_at local (j div sizeof_ulong) \<noteq> word_at twin (j div sizeof_ulong)
             then local ! j else x"])
     (rule portable_body_nth)

subsection \<open>The two bodies of commitPageDiffs\<close>

lemma byte_diff_word_diff:
  assumes "a ! j \<noteq> b ! j"
  shows "word_at a (j div sizeof_ulong) \<noteq> word_at b (j div sizeof_ulong)"
proof
  assume "word_at a (j div sizeof_ulong) = word_at b (j div sizeof_ulong)"
  then have "\<forall>k. k < sizeof_ulong \<longrightarrow>
      a ! (j div sizeof_ulong * sizeof_ulong + k) = b ! (j div sizeof_ulong * sizeof_ulong + k)"
    by (simp add: word_at_eq_iff)
  moreover have "j mod sizeof_ulong < sizeof_ulong" by (simp add: sizeof_ulong_def)
  ultimately have "a ! (j div sizeof_ulong * sizeof_ulong + j mod sizeof_ulong) =
                   b ! (j div sizeof_ulong * sizeof_ulong + j mod sizeof_ulong)" by blast
  then show False using assms by simp
qed


text \<open>
  C5, as the code has it. For a destination of one page, the page size a multiple of 16:
  the vectorized path writes exactly the bytes in which the working page differs from the
  twin, the portable path writes every byte of each word in which they differ. So the two
  leave the same page if and only if, in every word in which the working page differs
  from the twin, the destination already holds the working page's byte wherever that byte
  equals the twin's; in particular whenever the destination equals the twin.
\<close>

theorem commitPageDiffs_paths_agree_iff:
  assumes len: "length dest = unat (PageSize xd)"
    and al: "sizeof_m128i dvd unat (PageSize xd)"
  shows "(commitPageDiffs_SSE xd local twin dest = commitPageDiffs_portable xd local twin dest) =
           (\<forall>j. j < unat (PageSize xd) \<and>
                 word_at local (j div sizeof_ulong) \<noteq> word_at twin (j div sizeof_ulong) \<and>
                 local ! j = twin ! j \<longrightarrow> dest ! j = local ! j) \<and>
         (dest = twin \<longrightarrow>
            commitPageDiffs_SSE xd local twin dest = commitPageDiffs_portable xd local twin dest)"
proof -
  let ?n = "unat (PageSize xd)"
  let ?W = "\<lambda>j. word_at local (j div sizeof_ulong) \<noteq> word_at twin (j div sizeof_ulong)"
  have c16: "sizeof_m128i * (?n div sizeof_m128i) = ?n" using al by simp
  have "sizeof_ulong dvd sizeof_m128i" by (simp add: sizeof_ulong_def sizeof_m128i_def)
  then have "sizeof_ulong dvd ?n" using al by (rule dvd_trans)
  then have c4: "sizeof_ulong * (?n div sizeof_ulong) = ?n" by simp
  have ls: "length (commitPageDiffs_SSE xd local twin dest) = ?n"
    using SSE_nth [of xd local twin dest] len by simp
  have lp: "length (commitPageDiffs_portable xd local twin dest) = ?n"
    using portable_nth [of xd local twin dest] len by simp
  have ns: "commitPageDiffs_SSE xd local twin dest ! j =
            (if local ! j \<noteq> twin ! j then local ! j else dest ! j)" if "j < ?n" for j
    using SSE_nth [of xd local twin dest] that len c16 by simp
  have np: "commitPageDiffs_portable xd local twin dest ! j =
            (if ?W j then local ! j else dest ! j)" if "j < ?n" for j
    using portable_nth [of xd local twin dest] that len c4 by simp
  have pt: "(commitPageDiffs_SSE xd local twin dest ! j = commitPageDiffs_portable xd local twin dest ! j) =
            (?W j \<and> local ! j = twin ! j \<longrightarrow> dest ! j = local ! j)" if "j < ?n" for j
    unfolding ns [OF that] np [OF that] using byte_diff_word_diff [of local j twin] by auto
  have iff: "(commitPageDiffs_SSE xd local twin dest = commitPageDiffs_portable xd local twin dest) =
           (\<forall>j. j < ?n \<and> ?W j \<and> local ! j = twin ! j \<longrightarrow> dest ! j = local ! j)"
  proof
    assume "commitPageDiffs_SSE xd local twin dest = commitPageDiffs_portable xd local twin dest"
    then show "\<forall>j. j < ?n \<and> ?W j \<and> local ! j = twin ! j \<longrightarrow> dest ! j = local ! j"
      using pt by auto
  next
    assume r: "\<forall>j. j < ?n \<and> ?W j \<and> local ! j = twin ! j \<longrightarrow> dest ! j = local ! j"
    show "commitPageDiffs_SSE xd local twin dest = commitPageDiffs_portable xd local twin dest"
    proof (rule nth_equalityI)
      show "length (commitPageDiffs_SSE xd local twin dest) =
            length (commitPageDiffs_portable xd local twin dest)" using ls lp by simp
    next
      fix j assume "j < length (commitPageDiffs_SSE xd local twin dest)"
      then have j: "j < ?n" using ls by simp
      show "commitPageDiffs_SSE xd local twin dest ! j = commitPageDiffs_portable xd local twin dest ! j"
        using pt [OF j] r j by blast
    qed
  qed
  show ?thesis unfolding iff by auto
qed


theorem commitPageDiffs_paths_agree_iff_witness:
  "commitPageDiffs_SSE xdefines_x86 page_local_ex page_twin_ex page_twin_ex =
   commitPageDiffs_portable xdefines_x86 page_local_ex page_twin_ex page_twin_ex"
proof -
  have l: "length page_twin_ex = unat (PageSize xdefines_x86)"
    by (simp add: page_twin_ex_def xdefines_x86_def)
  have d: "sizeof_m128i dvd unat (PageSize xdefines_x86)"
    by (simp add: sizeof_m128i_def xdefines_x86_def)
  show ?thesis
    using commitPageDiffs_paths_agree_iff [OF l d, of page_local_ex page_twin_ex] by simp
qed

text \<open>
  C5, as the specification words it, fails on the three pages above: only the first byte
  of the first word differs between the working page and the twin, so the vectorized path
  keeps the destination's second byte (1) and the portable path overwrites it with the
  working page's (0).
\<close>

theorem commitPageDiffs_paths_differ_counterexample:
  "commitPageDiffs_SSE xdefines_x86 page_local_ex page_twin_ex page_dest_ex \<noteq>
   commitPageDiffs_portable xdefines_x86 page_local_ex page_twin_ex page_dest_ex"
proof -
  have n: "unat (PageSize xdefines_x86) = 4096" by (simp add: xdefines_x86_def)
  have l: "(1::nat) < length page_dest_ex" by (simp add: page_dest_ex_def)
  have w: "word_at page_local_ex (1 div sizeof_ulong) \<noteq> word_at page_twin_ex (1 div sizeof_ulong)"
    using byte_diff_word_diff [of page_local_ex 0 page_twin_ex]
    by (simp add: page_local_ex_def page_twin_ex_def sizeof_ulong_def)
  have s: "commitPageDiffs_SSE xdefines_x86 page_local_ex page_twin_ex page_dest_ex ! 1 = 1"
    using SSE_nth [of xdefines_x86 page_local_ex page_twin_ex page_dest_ex] l
    by (simp add: n sizeof_m128i_def page_local_ex_def page_twin_ex_def page_dest_ex_def)
  have p: "commitPageDiffs_portable xdefines_x86 page_local_ex page_twin_ex page_dest_ex ! 1 = 0"
    using portable_nth [of xdefines_x86 page_local_ex page_twin_ex page_dest_ex] l w
    by (simp add: n sizeof_ulong_def page_local_ex_def)
  show ?thesis using s p by auto
qed

subsection \<open>Interim recording\<close>

lemma memcpy_nth:
  "j < n \<Longrightarrow> memcpy dst src n ! j = src ! j"
  by (simp add: memcpy_def nth_append)

lemma word_at_memcpy:
  assumes "i < n div sizeof_ulong"
  shows "word_at (memcpy dst src n) i = word_at src i"
proof -
  have "i * sizeof_ulong + k < n" if "k < sizeof_ulong" for k
  proof -
    have "Suc i * sizeof_ulong \<le> n div sizeof_ulong * sizeof_ulong"
      using assms by (intro mult_le_mono1) simp
    also have "\<dots> \<le> n" by simp
    finally show ?thesis using that by simp
  qed
  then show ?thesis by (simp add: word_at_eq_iff memcpy_nth)
qed

lemma fold_unchanged:
  "(\<And>i. i \<in> set js \<Longrightarrow> f i s = s) \<Longrightarrow> fold f js s = s"
  by (induction js) simp_all

lemma recordChanges_body_equal:
  "word_at local i = word_at (rl_twin l) i \<Longrightarrow> recordChanges_body xd p c local i l = l"
  by (simp add: recordChanges_body_def)

lemma recordChangesAndUpdate_createTempPage:
  "recordChangesAndUpdate xd p True st =
     (p\<lparr>origTwinPage := memcpy (origTwinPage p) (transient st (pageStart p)) (unat (PageSize xd))\<rparr>, st)"
proof -
  let ?local = "transient st (pageStart p)"
  let ?p1 = "p\<lparr>origTwinPage := memcpy (origTwinPage p) ?local (unat (PageSize xd))\<rparr>"
  let ?l0 = "\<lparr>rl_twin = origTwinPage ?p1, rl_wordChanges = wordChanges ?p1, rl_interWrites = 0,
              rl_recordedCacheNo = 0xFFFFFFFF, rl_st = st\<rparr>"
  have "fold (recordChanges_body xd ?p1 True ?local) [0..<unat (PageSize xd) div sizeof_ulong] ?l0 = ?l0"
  proof (rule fold_unchanged)
    fix i assume "i \<in> set [0..<unat (PageSize xd) div sizeof_ulong]"
    then have "i < unat (PageSize xd) div sizeof_ulong" by simp
    then have "word_at ?local i = word_at (rl_twin ?l0) i"
      by (simp add: word_at_memcpy)
    then show "recordChanges_body xd ?p1 True ?local i ?l0 = ?l0"
      by (rule recordChanges_body_equal)
  qed
  then show ?thesis
    by (simp add: recordChangesAndUpdate_def Let_def)
qed


text \<open>
  C2. With \<^verbatim>\<open>createTempPage\<close> the function first copies the working page over the
  original twin and then compares the two, so the loop finds no differing word, whatever
  the working page and the twin held: no word change counter is incremented, the cache
  counters are left alone, and the original twin ends up equal to the working page.
\<close>

theorem recordChangesAndUpdate_first_promotion:
  "recordChangesAndUpdate xd p True st =
     (p\<lparr>origTwinPage := memcpy (origTwinPage p) (transient st (pageStart p)) (unat (PageSize xd))\<rparr>, st) \<and>
   wordChanges (fst (recordChangesAndUpdate xd p True st)) = wordChanges p \<and>
   m_cacheLastthread (snd (recordChangesAndUpdate xd p True st)) = m_cacheLastthread st \<and>
   m_cacheInvalidates (snd (recordChangesAndUpdate xd p True st)) = m_cacheInvalidates st"
  by (simp add: recordChangesAndUpdate_createTempPage)


lemma periodicCheck_body_shared_new:
  "shared p \<Longrightarrow> \<not> alloced p \<Longrightarrow>
   periodicCheck_body xd p c st =
     (p\<lparr>tempTwinPage := xpagestore_blocks st (xpagestore_used st + 1),
        wordChanges := replicate (unat (PageSize xd) div sizeof_ulong) 0,
        alloced := True,
        origTwinPage := memcpy (origTwinPage p) (transient st (pageStart p)) (unat (PageSize xd))\<rparr>,
      True, st\<lparr>xpagestore_used := xpagestore_used st + 2\<rparr>)"
  by (simp add: periodicCheck_body_def allocResourcesForSharedPage_def xpagestore_alloc_def
      recordChangesAndUpdate_createTempPage Let_def)

lemma periodicCheck_body_shared_old:
  "shared p \<Longrightarrow> alloced p \<Longrightarrow>
   periodicCheck_body xd p c st =
     (fst (recordChangesAndUpdate xd p c st), c, snd (recordChangesAndUpdate xd p c st))"
  by (simp add: periodicCheck_body_def Let_def split: prod.splits)

subsection \<open>The periodic check\<close>






















text \<open>
  C3 on two shared pages, the first without extra resources, the second with resources
  from an earlier pass. \<^verbatim>\<open>createTempPage\<close> is set when the first page is promoted and
  never reset, so \<^verbatim>\<open>recordChangesAndUpdate\<close> is called with \<^verbatim>\<open>true\<close> for the second
  page too: its original twin is overwritten with the working page, and its temporary
  twin and its counters stay as they were.
\<close>

theorem periodicCheck_createTempPage_sticky:
  "periodicCheck_loop xd
     [(k1, p1\<lparr>shared := True, alloced := False\<rparr>), (k2, p2\<lparr>shared := True, alloced := True\<rparr>)] False st =
   (let a = allocResourcesForSharedPage xd (p1\<lparr>shared := True, alloced := False\<rparr>) st;
        r1 = recordChangesAndUpdate xd (fst a) True (snd a);
        r2 = recordChangesAndUpdate xd (p2\<lparr>shared := True, alloced := True\<rparr>) True (snd r1)
    in ([(k1, fst r1), (k2, fst r2)], True, snd r2)) \<and>
   snd (fst (periodicCheck_loop xd
     [(k1, p1\<lparr>shared := True, alloced := False\<rparr>), (k2, p2\<lparr>shared := True, alloced := True\<rparr>)] False st) ! 1) =
     p2\<lparr>shared := True, alloced := True,
        origTwinPage := memcpy (origTwinPage p2) (transient st (pageStart p2)) (unat (PageSize xd))\<rparr>"
proof -
  let ?P1 = "p1\<lparr>shared := True, alloced := False\<rparr>"
  let ?P2 = "p2\<lparr>shared := True, alloced := True\<rparr>"
  have s1: "shared ?P1" and n1: "\<not> alloced ?P1" and s2: "shared ?P2" and a2: "alloced ?P2"
    by simp_all
  have al: "allocResourcesForSharedPage xd ?P1 st =
      (?P1\<lparr>tempTwinPage := xpagestore_blocks st (xpagestore_used st + 1),
            wordChanges := replicate (unat (PageSize xd) div sizeof_ulong) 0, alloced := True\<rparr>,
       st\<lparr>xpagestore_used := xpagestore_used st + 2\<rparr>)"
    by (simp add: allocResourcesForSharedPage_def xpagestore_alloc_def Let_def)
  show ?thesis
    by (simp add: periodicCheck_body_shared_new [OF s1 n1] periodicCheck_body_shared_old [OF s2 a2]
        al recordChangesAndUpdate_createTempPage Let_def)
qed

lemma recordChanges_loop_first_word_only:
  assumes n: "0 < n"
    and eq: "\<And>i. 1 \<le> i \<Longrightarrow> i < n \<Longrightarrow>
               word_at local i = word_at (rl_twin (recordChanges_body xd p c local 0 l)) i"
  shows "fold (recordChanges_body xd p c local) [0..<n] l = recordChanges_body xd p c local 0 l"
proof -
  have u: "[0..<n] = 0 # [1..<n]" using n by (simp add: upt_conv_Cons)
  have "fold (recordChanges_body xd p c local) [1..<n] (recordChanges_body xd p c local 0 l) =
        recordChanges_body xd p c local 0 l"
  proof (rule fold_unchanged)
    fix i assume "i \<in> set [1..<n]"
    then have "1 \<le> i" and "i < n" by simp_all
    then have "word_at local i = word_at (rl_twin (recordChanges_body xd p c local 0 l)) i"
      by (rule eq)
    then show "recordChanges_body xd p c local i (recordChanges_body xd p c local 0 l) =
               recordChanges_body xd p c local 0 l"
      by (rule recordChanges_body_equal)
  qed
  then show ?thesis unfolding u by simp
qed

lemma ex_words_differ: "word_at page_local_ex 0 \<noteq> word_at page_twin_ex 0"
  using byte_diff_word_diff [of page_local_ex 0 page_twin_ex]
  by (simp add: page_local_ex_def page_twin_ex_def sizeof_ulong_def)

lemma ex_words_equal:
  assumes "1 \<le> i" and "i < 1024"
  shows "word_at page_local_ex i = word_at (word_assign page_twin_ex page_local_ex 0) i"
proof -
  have "page_local_ex ! (i * sizeof_ulong + k) =
        word_assign page_twin_ex page_local_ex 0 ! (i * sizeof_ulong + k)" if k: "k < sizeof_ulong" for k
  proof -
    have j: "i * sizeof_ulong + k < length page_twin_ex"
      using assms k by (simp add: page_twin_ex_def sizeof_ulong_def)
    have o: "\<not> (0 * sizeof_ulong \<le> i * sizeof_ulong + k \<and>
                i * sizeof_ulong + k < 0 * sizeof_ulong + sizeof_ulong)"
      using assms by (simp add: sizeof_ulong_def)
    have w: "word_assign page_twin_ex page_local_ex 0 ! (i * sizeof_ulong + k) =
             page_twin_ex ! (i * sizeof_ulong + k)"
      using word_assign_nth [of page_twin_ex page_local_ex 0] j o by simp
    have t: "page_twin_ex ! (i * sizeof_ulong + k) = 0"
      using j by (simp add: page_twin_ex_def)
    have l: "page_local_ex ! (i * sizeof_ulong + k) = 0"
      using assms k by (simp add: page_local_ex_def sizeof_ulong_def nth_Cons')
    show ?thesis unfolding w t l ..
  qed
  then show ?thesis by (simp add: word_at_eq_iff)
qed

lemma ex_first_pass:
  "periodicCheck xdefines_x86 xpersist_contended_ex =
     xpersist_contended_ex\<lparr>xpagestore_used := 2, m_privatePagesList := [(0, pageinfo_promoted_ex)]\<rparr>"
proof -
  have s: "shared (pageinfo_ex\<lparr>shared := True\<rparr>)" by simp
  have n: "\<not> alloced (pageinfo_ex\<lparr>shared := True\<rparr>)" by (simp add: pageinfo_ex_def)
  show ?thesis
    by (simp add: periodicCheck_def xpersist_contended_ex_def periodicCheck_body_shared_new [OF s n])
       (simp add: xpersist_ex_def pageinfo_ex_def pageinfo_promoted_ex_def xdefines_x86_def sizeof_ulong_def)
qed

lemma ex_second_record:
  fixes st :: xpersist
  assumes t: "transient st 0x08100000 = page_local_ex"
  shows "recordChangesAndUpdate xdefines_x86 pageinfo_promoted_ex False st =
     (pageinfo_promoted_ex\<lparr>tempTwinPage := word_assign page_twin_ex page_local_ex 0,
                           wordChanges := (replicate 1024 0)[0 := 1]\<rparr>,
      snd (recordCacheInvalidates 0 0 st))"
proof -
  let ?l0 = "\<lparr>rl_twin = page_twin_ex, rl_wordChanges = replicate 1024 (0::ulong), rl_interWrites = 0,
              rl_recordedCacheNo = 0xFFFFFFFF, rl_st = st\<rparr>"
  let ?l1 = "\<lparr>rl_twin = word_assign page_twin_ex page_local_ex 0,
              rl_wordChanges = (replicate 1024 (0::ulong))[0 := 1],
              rl_interWrites = fst (recordCacheInvalidates 0 0 st),
              rl_recordedCacheNo = 0, rl_st = snd (recordCacheInvalidates 0 0 st)\<rparr>"
  have b: "recordChanges_body xdefines_x86 pageinfo_promoted_ex False page_local_ex 0 ?l0 = ?l1"
    using ex_words_differ
    by (simp add: recordChanges_body_def Let_def pageinfo_promoted_ex_def pageinfo_ex_def
        xdefines_x86_def split: prod.splits)
  have f: "fold (recordChanges_body xdefines_x86 pageinfo_promoted_ex False page_local_ex) [0..<1024] ?l0 = ?l1"
    unfolding b [symmetric]
  proof (rule recordChanges_loop_first_word_only)
    show "(0::nat) < 1024" by simp
  next
    fix i :: nat assume "1 \<le> i" and "i < 1024"
    then show "word_at page_local_ex i =
       word_at (rl_twin (recordChanges_body xdefines_x86 pageinfo_promoted_ex False page_local_ex 0 ?l0)) i"
      unfolding b by (simp add: ex_words_equal)
  qed
  have n: "unat (PageSize xdefines_x86) div sizeof_ulong = 1024"
    by (simp add: xdefines_x86_def sizeof_ulong_def)
  have ps: "pageStart pageinfo_promoted_ex = 0x08100000"
    and tt: "tempTwinPage pageinfo_promoted_ex = page_twin_ex"
    and wc: "wordChanges pageinfo_promoted_ex = replicate 1024 0"
    by (simp_all add: pageinfo_promoted_ex_def pageinfo_ex_def)
  show ?thesis
    by (simp add: recordChangesAndUpdate_def Let_def n ps tt wc t f)
qed

text \<open>
  C4 on the contended example state, the periodic check run twice with nothing written in
  between. The first pass promotes the page and records nothing (it compares the working
  page with a copy of itself); the temporary twin it allocates is never written. The
  second pass compares the working page with that block, finds the first word different,
  increments the word's change counter and counts a cache invalidation.
\<close>

theorem periodicCheck_twice_records_again:
  "wordChanges (snd (m_privatePagesList (periodicCheck xdefines_x86 xpersist_contended_ex) ! 0)) ! 0 = 0 \<and>
   wordChanges (snd (m_privatePagesList
      (periodicCheck xdefines_x86 (periodicCheck xdefines_x86 xpersist_contended_ex)) ! 0)) ! 0 = 1 \<and>
   m_cacheInvalidates (periodicCheck xdefines_x86 xpersist_contended_ex) 0 = 0 \<and>
   m_cacheInvalidates (periodicCheck xdefines_x86 (periodicCheck xdefines_x86 xpersist_contended_ex)) 0 = 1"
proof -
  let ?S1 = "xpersist_contended_ex\<lparr>xpagestore_used := 2, m_privatePagesList := [(0, pageinfo_promoted_ex)]\<rparr>"
  have s: "shared pageinfo_promoted_ex" and a: "alloced pageinfo_promoted_ex"
    by (simp_all add: pageinfo_promoted_ex_def)
  have t: "transient ?S1 0x08100000 = page_local_ex"
    by (simp add: xpersist_contended_ex_def xpersist_ex_def)
  have c: "recordCacheInvalidates 0 0 ?S1 =
      (1, ?S1\<lparr>m_cacheLastthread := (m_cacheLastthread ?S1)(0 := 100),
               m_cacheInvalidates := (m_cacheInvalidates ?S1)(0 := 1)\<rparr>)"
    by (simp add: recordCacheInvalidates_def atomic_exchange_def atomic_increment_def Let_def
        xpersist_contended_ex_def xpersist_ex_def)
  have second: "periodicCheck xdefines_x86 ?S1 =
      (snd (recordCacheInvalidates 0 0 ?S1))\<lparr>m_privatePagesList :=
         [(0, pageinfo_promoted_ex\<lparr>tempTwinPage := word_assign page_twin_ex page_local_ex 0,
                                   wordChanges := (replicate 1024 0)[0 := 1]\<rparr>)]\<rparr>"
    by (simp add: periodicCheck_def periodicCheck_body_shared_old [OF s a] ex_second_record [OF t])
  have i1: "m_cacheInvalidates ?S1 0 = 0"
    by (simp add: xpersist_contended_ex_def xpersist_ex_def)
  have w1: "wordChanges pageinfo_promoted_ex ! 0 = 0"
    by (simp add: pageinfo_promoted_ex_def)
  show ?thesis
    unfolding ex_first_pass second c using i1 w1 by simp
qed

subsection \<open>Commit of a shared page\<close>

lemma fold_preserves_on:
  "(\<And>j s. j \<in> set js \<Longrightarrow> g (f j s) = g s) \<Longrightarrow> g (fold f js s) = g s"
  by (induction js arbitrary: s) simp_all

lemma upt_split_at:
  "i < n \<Longrightarrow> [0..<n] = [0..<i] @ i # [Suc i..<n]"
  using upt_add_eq_append [of 0 i "n - i"] by (simp add: upt_conv_Cons)

lemma cond_update_loop_frame:
  "\<not> (off \<le> j \<and> j < off + m) \<Longrightarrow>
   fold (\<lambda>k b. if c k then b[off + k := v k] else b) [0..<m] buf ! j = buf ! j"
  by (induction m) auto

lemma checkCommitWord_frame:
  "\<not> (off \<le> j \<and> j < off + sizeof_ulong) \<Longrightarrow>
   checkCommitWord local twin share off ! j = share ! j"
  unfolding checkCommitWord_def
  by (rule cond_update_loop_frame
      [where c = "\<lambda>k. local ! (off + k) \<noteq> twin ! (off + k)" and v = "\<lambda>k. local ! (off + k)"])

lemma checkCommitWord_other_word:
  assumes "i \<noteq> j"
  shows "word_at (checkCommitWord local twin share (j * sizeof_ulong)) i = word_at share i"
proof -
  have "\<not> (j * sizeof_ulong \<le> i * sizeof_ulong + k \<and>
            i * sizeof_ulong + k < j * sizeof_ulong + sizeof_ulong)" if "k < sizeof_ulong" for k
  proof (cases "i < j")
    case True
    then have "Suc i * sizeof_ulong \<le> j * sizeof_ulong" by (intro mult_le_mono1) simp
    then show ?thesis using that by simp
  next
    case False
    then have "Suc j * sizeof_ulong \<le> i * sizeof_ulong" using assms by (intro mult_le_mono1) simp
    then show ?thesis by simp
  qed
  then show ?thesis by (simp add: word_at_eq_iff checkCommitWord_frame)
qed

lemma globalChanges_addr_inj:
  assumes "i < unat (PageSize xd) div sizeof_ulong" and "j < unat (PageSize xd) div sizeof_ulong"
  shows "(globalChanges_addr xd p i = globalChanges_addr xd p j) = (i = j)"
proof -
  have b: "k * sizeof_ulong < 2 ^ 32" if "k < unat (PageSize xd) div sizeof_ulong" for k
  proof -
    have "k * sizeof_ulong \<le> unat (PageSize xd) div sizeof_ulong * sizeof_ulong"
      using that by (intro mult_le_mono1) simp
    also have "\<dots> \<le> unat (PageSize xd)" by simp
    also have "\<dots> < 2 ^ 32" using unsigned_less [of "PageSize xd"] by simp
    finally show ?thesis .
  qed
  have u: "unat (of_nat (k * sizeof_ulong) :: ulong) = k * sizeof_ulong"
    if "k < unat (PageSize xd) div sizeof_ulong" for k
    using b [OF that] by (simp del: of_nat_mult add: unat_of_nat)
  have "(of_nat (i * sizeof_ulong) :: ulong) = of_nat (j * sizeof_ulong) \<Longrightarrow> i = j"
  proof -
    assume "(of_nat (i * sizeof_ulong) :: ulong) = of_nat (j * sizeof_ulong)"
    then have "unat (of_nat (i * sizeof_ulong) :: ulong) = unat (of_nat (j * sizeof_ulong) :: ulong)"
      by simp
    then have "i * sizeof_ulong = j * sizeof_ulong" unfolding u [OF assms(1)] u [OF assms(2)] .
    then show "i = j" by (simp add: sizeof_ulong_def)
  qed
  then show ?thesis by (auto simp: globalChanges_addr_def)
qed

lemma checkcommitpage_body_ABA:
  "word_at local i = word_at (origTwinPage p) i \<Longrightarrow> wordChanges p ! i \<noteq> 0 \<Longrightarrow>
   checkcommitpage_body xd p local i l =
     l\<lparr>cl_st := recordWordChanges_at (globalChanges_addr xd p i) (wordChanges p ! i) (cl_st l)\<rparr>"
  by (simp add: checkcommitpage_body_def Let_def)

lemma checkcommitpage_body_getpid:
  "getpid (cl_st (checkcommitpage_body xd p local j l)) = getpid (cl_st l)"
  by (simp add: checkcommitpage_body_def Let_def recordWordChanges_at_def
      recordCacheInvalidates_def atomic_exchange_def atomic_increment_def)

lemma checkcommitpage_body_other_record:
  assumes "i \<noteq> j" and "i < unat (PageSize xd) div sizeof_ulong"
    and "j < unat (PageSize xd) div sizeof_ulong"
  shows "m_wordChanges (cl_st (checkcommitpage_body xd p local j l)) (globalChanges_addr xd p i) =
         m_wordChanges (cl_st l) (globalChanges_addr xd p i)"
  using assms(1) globalChanges_addr_inj [OF assms(2,3), of p]
  by (simp add: checkcommitpage_body_def Let_def recordWordChanges_at_def
      recordCacheInvalidates_def atomic_exchange_def atomic_increment_def)

lemma checkcommitpage_body_other_word:
  assumes "i \<noteq> j"
  shows "word_at (persistent (cl_st (checkcommitpage_body xd p local j l)) (pageNo p)) i =
         word_at (persistent (cl_st l) (pageNo p)) i"
  using assms
  by (simp add: checkcommitpage_body_def Let_def recordWordChanges_at_def
      recordCacheInvalidates_def atomic_exchange_def atomic_increment_def
      checkCommitWord_other_word)

text \<open>
  C6. Let word \<open>i\<close> of the working page equal word \<open>i\<close> of the original twin while its
  local change count is not zero. Then the iteration of \<^verbatim>\<open>checkcommitpage\<close> for \<open>i\<close>
  changes nothing but the word's record in \<^verbatim>\<open>_wordChanges\<close>, to which it applies
  \<^verbatim>\<open>recordWordChanges\<close> with that count: the cache arrays, the persistent mapping and the
  loop's locals are as before. No other iteration touches the record or the word, so after
  the whole function the record is the old one updated once with the count (its version
  is the old version plus the count) and the bytes of the word in the persistent page are
  the old ones.
\<close>

theorem checkcommitpage_ABA:
  assumes i: "i < unat (PageSize xd) div sizeof_ulong"
    and eq: "word_at (transient st (pageStart p)) i = word_at (origTwinPage p) i"
    and nz: "wordChanges p ! i \<noteq> 0"
  shows "checkcommitpage_body xd p (transient st (pageStart p)) i l =
           l\<lparr>cl_st := (cl_st l)\<lparr>m_wordChanges := (m_wordChanges (cl_st l))
               (globalChanges_addr xd p i :=
                  recordWordChanges (getpid (cl_st l))
                    (m_wordChanges (cl_st l) (globalChanges_addr xd p i)) (wordChanges p ! i))\<rparr>\<rparr> \<and>
         m_wordChanges (checkcommitpage xd p st) (globalChanges_addr xd p i) =
           recordWordChanges (getpid st) (m_wordChanges st (globalChanges_addr xd p i)) (wordChanges p ! i) \<and>
         version (m_wordChanges (checkcommitpage xd p st) (globalChanges_addr xd p i)) =
           version (m_wordChanges st (globalChanges_addr xd p i)) + ucast (wordChanges p ! i) \<and>
         word_at (persistent (checkcommitpage xd p st) (pageNo p)) i = word_at (persistent st (pageNo p)) i"
proof -
  let ?local = "transient st (pageStart p)"
  let ?n = "unat (PageSize xd) div sizeof_ulong"
  let ?f = "checkcommitpage_body xd p ?local"
  let ?g = "globalChanges_addr xd p i"
  let ?l0 = "\<lparr>cl_recordedCacheNo = 0xFFFFFFFF, cl_interWrites = 0, cl_st = st\<rparr>"
  let ?l1 = "fold ?f [0..<i] ?l0"
  have step: "?f i l = l\<lparr>cl_st := recordWordChanges_at ?g (wordChanges p ! i) (cl_st l)\<rparr>" for l
    using eq nz by (rule checkcommitpage_body_ABA)
  have split: "fold ?f [0..<?n] ?l0 = fold ?f [Suc i..<?n] (?f i ?l1)"
    unfolding upt_split_at [OF i] by simp
  have rec_before: "m_wordChanges (cl_st ?l1) ?g = m_wordChanges st ?g"
    using fold_preserves_on [where f = ?f and g = "\<lambda>l. m_wordChanges (cl_st l) ?g" and js = "[0..<i]" and s = ?l0]
      checkcommitpage_body_other_record [of i _ xd p ?local] i by simp
  have pid_before: "getpid (cl_st ?l1) = getpid st"
    using fold_preserves_on [where f = ?f and g = "\<lambda>l. getpid (cl_st l)" and js = "[0..<i]" and s = ?l0]
    by (simp add: checkcommitpage_body_getpid)
  have word_before: "word_at (persistent (cl_st ?l1) (pageNo p)) i = word_at (persistent st (pageNo p)) i"
    using fold_preserves_on [where f = ?f and g = "\<lambda>l. word_at (persistent (cl_st l) (pageNo p)) i"
        and js = "[0..<i]" and s = ?l0]
      checkcommitpage_body_other_word [of i _ xd p ?local] by simp
  have rec_after: "m_wordChanges (cl_st (fold ?f [Suc i..<?n] l)) ?g = m_wordChanges (cl_st l) ?g" for l
    using fold_preserves_on [where f = ?f and g = "\<lambda>l. m_wordChanges (cl_st l) ?g"
        and js = "[Suc i..<?n]" and s = l]
      checkcommitpage_body_other_record [of i _ xd p ?local] i by simp
  have word_after: "word_at (persistent (cl_st (fold ?f [Suc i..<?n] l)) (pageNo p)) i =
                    word_at (persistent (cl_st l) (pageNo p)) i" for l
    using fold_preserves_on [where f = ?f and g = "\<lambda>l. word_at (persistent (cl_st l) (pageNo p)) i"
        and js = "[Suc i..<?n]" and s = l]
      checkcommitpage_body_other_word [of i _ xd p ?local] by simp
  have r: "m_wordChanges (checkcommitpage xd p st) ?g =
           recordWordChanges (getpid st) (m_wordChanges st ?g) (wordChanges p ! i)"
    unfolding checkcommitpage_def checkcommitpage_locals_def split rec_after step
    by (simp add: recordWordChanges_at_def rec_before pid_before)
  have w: "word_at (persistent (checkcommitpage xd p st) (pageNo p)) i = word_at (persistent st (pageNo p)) i"
    unfolding checkcommitpage_def checkcommitpage_locals_def split word_after step
    by (simp add: recordWordChanges_at_def word_before)
  show ?thesis
    using r w by (simp add: step recordWordChanges_at_def recordWordChanges_version)
qed

theorem checkcommitpage_ABA_witness:
  "m_wordChanges (checkcommitpage xdefines_x86 pageinfo_aba_ex xpersist_ex) 4 = \<lparr>tid = 100, version = 3\<rparr> \<and>
   word_at (persistent (checkcommitpage xdefines_x86 pageinfo_aba_ex xpersist_ex) 0) 1 =
     word_at page_twin_ex 1"
proof -
  have i: "1 < unat (PageSize xdefines_x86) div sizeof_ulong"
    by (simp add: xdefines_x86_def sizeof_ulong_def)
  have eq: "word_at (transient xpersist_ex (pageStart pageinfo_aba_ex)) 1 =
            word_at (origTwinPage pageinfo_aba_ex) 1"
    by (simp add: xpersist_ex_def pageinfo_aba_ex_def word_at_eq_iff page_local_ex_def
        page_twin_ex_def sizeof_ulong_def nth_Cons')
  have nz: "wordChanges pageinfo_aba_ex ! 1 \<noteq> 0"
    by (simp add: pageinfo_aba_ex_def)
  have g: "globalChanges_addr xdefines_x86 pageinfo_aba_ex 1 = 4"
    by (simp add: globalChanges_addr_def xdefines_x86_def pageinfo_aba_ex_def sizeof_ulong_def)
  have v: "recordWordChanges (getpid xpersist_ex) (m_wordChanges xpersist_ex 4)
             (wordChanges pageinfo_aba_ex ! 1) = \<lparr>tid = 100, version = 3\<rparr>"
    by (simp add: recordWordChanges_def xpersist_ex_def pageinfo_aba_ex_def Let_def)
  have n: "pageNo pageinfo_aba_ex = 0"
    by (simp add: pageinfo_aba_ex_def)
  have p: "persistent xpersist_ex 0 = page_twin_ex"
    by (simp add: xpersist_ex_def)
  show ?thesis
    using checkcommitpage_ABA [OF i eq nz,
        of "\<lparr>cl_recordedCacheNo = 0xFFFFFFFF, cl_interWrites = 0, cl_st = xpersist_ex\<rparr>"]
    unfolding g v n p by simp
qed

end
